theory Spec2Isabelle
  imports Main
begin

section \<open>A model of \<open>ConnectionPool.py\<close>\<close>

text \<open>
  The module defines \<open>DatabaseConnectionPool\<close>: a counter \<open>size\<close> of connections
  created, a bound \<open>maxsize\<close>, and a FIFO queue \<open>pool\<close> of idle connection handles.
  The connections themselves, the factory \<open>create_connection\<close> and gevent's hub belong
  to other libraries. They are taken as a parameter (\<open>driver\<close>): every call to them is a
  function on an external world \<open>'w\<close> that may raise and may change that world.
  The pool's calls to these collaborators are logged in \<open>calls\<close>, so that "commit is
  called once" is a statement about that log.

  The model is sequential: one caller at a time runs a pool operation to its end.
  \<open>Queue.get\<close> on an empty queue, which suspends the calling greenlet until another
  greenlet puts an item, is the outcome \<open>Blocked\<close>.
\<close>

subsection \<open>Exceptions\<close>

text \<open>
  \<open>Error\<close> stands for an instance of a subclass of \<open>Exception\<close> raised by an external
  collaborator or by the caller's work (a driver error, say), \<open>Interrupt\<close> for an instance
  of \<open>BaseException\<close> that is not an \<open>Exception\<close> (gevent's \<open>GreenletExit\<close> and
  \<open>Timeout\<close>, say). The difference matters: a bare \<open>except:\<close> catches both,
  \<open>contextlib.suppress(Exception)\<close> only the first. \<open>SystemError\<close> is an
  \<open>Exception\<close>, \<open>KeyboardInterrupt\<close> and \<open>SystemExit\<close> are not; these three are the
  exceptions gevent's hub treats as system errors.
\<close>

datatype exn =
    TypeError
  | NameError string
  | OperationalError
  | SystemError
  | KeyboardInterrupt
  | SystemExit
  | Error nat
  | Interrupt nat

fun is_Exception :: "exn \<Rightarrow> bool" where
  "is_Exception (Interrupt n) = False"
| "is_Exception KeyboardInterrupt = False"
| "is_Exception SystemExit = False"
| "is_Exception e = True"

text \<open>
  The names bound at module level when \<open>connection\<close> runs: the imports of lines 1 to 8,
  \<open>integer_types\<close> and the two classes. \<open>OperationalError\<close> is not among them (the only
  name imported from the driver is \<open>connect\<close>) and it is not a Python builtin, so
  evaluating the name at line 67 raises \<open>NameError\<close> before the exception object
  is built.
\<close>

definition module_names :: "string list" where
  "module_names =
     [''print_function'', ''sys'', ''contextlib'', ''gevent'', ''Queue'', ''wait_read'',
      ''wait_write'', ''connect'', ''integer_types'', ''DatabaseConnectionPool'',
      ''ODBCConnectionPool'']"

definition raise_OperationalError :: exn where
  "raise_OperationalError =
     (if ''OperationalError'' \<in> set module_names then OperationalError
      else NameError ''OperationalError'')"

subsection \<open>The external collaborators\<close>

type_synonym level = int

text \<open>
  A connection handle \<open>'c\<close> is a reference; the object it refers to lives in the world.
  Reading \<open>conn.connected\<close> and \<open>conn.isolation_level\<close> looks at the world; a method call
  returns the exception it raised, if any, and the world it left behind (a call that
  raises may have changed the object all the same). The factory returns a handle or
  raises. The two attribute reads do not raise. \<open>handle_error\<close> is the method of
  gevent's hub: it reports what it is given, and it may raise in its turn (the hub
  throws a system error back at a caller that runs in the main greenlet).
\<close>

record ('c, 'w) driver =
  create_connection :: "'w \<Rightarrow> (exn + 'c) \<times> 'w"
  connected :: "'c \<Rightarrow> 'w \<Rightarrow> bool"
  isolation_level :: "'c \<Rightarrow> 'w \<Rightarrow> level"
  set_isolation_level :: "'c \<Rightarrow> level \<Rightarrow> 'w \<Rightarrow> exn option \<times> 'w"
  commit :: "'c \<Rightarrow> 'w \<Rightarrow> exn option \<times> 'w"
  rollback :: "'c \<Rightarrow> 'w \<Rightarrow> exn option \<times> 'w"
  close :: "'c \<Rightarrow> 'w \<Rightarrow> exn option \<times> 'w"
  handle_error :: "'c \<Rightarrow> exn \<Rightarrow> 'w \<Rightarrow> exn option \<times> 'w"

datatype 'c event =
    CreateConnection
  | SetIsolationLevel 'c level
  | Commit 'c
  | Rollback 'c
  | Close 'c
  | HandleError 'c exn

subsection \<open>The pool\<close>

text \<open>
  \<open>maxsize\<close>, \<open>pool\<close> and \<open>size\<close> are the attributes of the object (\<open>size\<close> is written
  \<open>size'\<close>, the name being taken in HOL; Python's integers are unbounded, hence \<open>int\<close>).
  The head of the list is the front of the queue.
\<close>

record ('c, 'w) state =
  maxsize :: int
  pool :: "'c list"
  size' :: int
  world :: 'w
  calls :: "'c event list"

datatype 'a outcome = Returned 'a | Raised exn | Blocked

datatype pyobj = PyInt int | PyOther

definition init :: "pyobj \<Rightarrow> 'w \<Rightarrow> exn + ('c, 'w) state" where
  "init arg w =
     (case arg of
        PyOther \<Rightarrow> Inl TypeError
      | PyInt n \<Rightarrow> Inr \<lparr>maxsize = n, pool = [], size' = 0, world = w, calls = []\<rparr>)"

definition get :: "('c, 'w) driver \<Rightarrow> ('c, 'w) state \<Rightarrow> 'c outcome \<times> ('c, 'w) state" where
  "get drv s =
     (if maxsize s \<le> size' s \<or> 0 < length (pool s) then
        (case pool s of
           [] \<Rightarrow> (Blocked, s)
         | item # rest \<Rightarrow> (Returned item, s\<lparr>pool := rest\<rparr>))
      else
        (let s1 = s\<lparr>size' := size' s + 1\<rparr> in
         case create_connection drv (world s1) of
           (Inl e, w) \<Rightarrow>
             (Raised e,
              s1\<lparr>size' := size' s1 - 1, world := w, calls := calls s1 @ [CreateConnection]\<rparr>)
         | (Inr new_item, w) \<Rightarrow>
             (Returned new_item, s1\<lparr>world := w, calls := calls s1 @ [CreateConnection]\<rparr>)))"

definition put :: "'c \<Rightarrow> ('c, 'w) state \<Rightarrow> ('c, 'w) state" where
  "put item s = s\<lparr>pool := pool s @ [item]\<rparr>"

text \<open>
  \<open>closeall\<close>: the loop pops the front of the queue while it is not empty and closes the
  popped connection under \<open>contextlib.suppress(Exception)\<close>. An exception of \<open>close\<close>
  that is not an \<open>Exception\<close> leaves the loop; the popped connection is then already out
  of the queue.
\<close>

fun drain ::
  "('c, 'w) driver \<Rightarrow> 'c list \<Rightarrow> 'w \<Rightarrow> 'c event list \<Rightarrow>
     exn option \<times> 'c list \<times> 'w \<times> 'c event list" where
  "drain drv [] w log = (None, [], w, log)"
| "drain drv (conn # rest) w log =
     (case close drv conn w of
        (None, w') \<Rightarrow> drain drv rest w' (log @ [Close conn])
      | (Some e, w') \<Rightarrow>
          (if is_Exception e then drain drv rest w' (log @ [Close conn])
           else (Some e, rest, w', log @ [Close conn])))"

definition closeall :: "('c, 'w) driver \<Rightarrow> ('c, 'w) state \<Rightarrow> exn option \<times> ('c, 'w) state" where
  "closeall drv s =
     (case drain drv (pool s) (world s) (calls s) of
        (r, q, w, log) \<Rightarrow> (r, s\<lparr>pool := q, world := w, calls := log\<rparr>))"

text \<open>
  \<open>_rollback\<close> (written \<open>rollback'\<close>): \<open>conn.rollback()\<close>; when it raises, the exception
  goes to the hub's \<open>handle_error\<close> and the method returns \<open>None\<close>, else it returns
  \<open>conn\<close>. An exception of \<open>handle_error\<close> leaves the method (\<open>Inl\<close>).
\<close>

definition rollback' ::
  "('c, 'w) driver \<Rightarrow> 'c \<Rightarrow> ('c, 'w) state \<Rightarrow> (exn + 'c option) \<times> ('c, 'w) state" where
  "rollback' drv conn s =
     (case rollback drv conn (world s) of
        (None, w) \<Rightarrow> (Inr (Some conn), s\<lparr>world := w, calls := calls s @ [Rollback conn]\<rparr>)
      | (Some e, w) \<Rightarrow>
          (case handle_error drv conn e w of
             (None, w1) \<Rightarrow>
               (Inr None,
                s\<lparr>world := w1, calls := calls s @ [Rollback conn, HandleError conn e]\<rparr>)
           | (Some e1, w1) \<Rightarrow>
               (Inl e1,
                s\<lparr>world := w1, calls := calls s @ [Rollback conn, HandleError conn e]\<rparr>)))"

text \<open>
  \<open>connection\<close> is a generator-based context manager. The caller's work runs at the
  \<open>yield\<close>; it is a function \<open>body\<close> of the handle and the world that returns the
  exception it raised, if any (the work uses the connection, not the pool). An
  exception of the work is thrown into the generator at
  the \<open>yield\<close>, so that it reaches the \<open>except\<close> clause as an exception of line 56 does.
  The statement has four blocks, modelled one by one.

  Lines 52 to 56, and the isolation level the \<open>finally\<close> block will see: \<open>None\<close> when
  none was asked for or when the connection already has the one asked for.
\<close>

type_synonym ('c, 'w) body = "'c \<Rightarrow> 'w \<Rightarrow> exn option \<times> 'w"

definition apply_isolation_level ::
  "('c, 'w) driver \<Rightarrow> level option \<Rightarrow> 'c \<Rightarrow> ('c, 'w) state \<Rightarrow>
     level option \<times> exn option \<times> ('c, 'w) state" where
  "apply_isolation_level drv requested conn s =
     (case requested of
        None \<Rightarrow> (None, None, s)
      | Some lvl \<Rightarrow>
          (if isolation_level drv conn (world s) = lvl then (None, None, s)
           else
             (case set_isolation_level drv conn lvl (world s) of
                (r, w) \<Rightarrow>
                  (Some lvl, r, s\<lparr>world := w, calls := calls s @ [SetIsolationLevel conn lvl]\<rparr>))))"

text \<open>The \<open>try\<close> block, lines 52 to 57: the work runs when line 56 has not raised.\<close>

definition try_block ::
  "('c, 'w) driver \<Rightarrow> level option \<Rightarrow> 'c \<Rightarrow> ('c, 'w) body \<Rightarrow> ('c, 'w) state \<Rightarrow>
     level option \<times> exn option \<times> ('c, 'w) state" where
  "try_block drv requested conn body s =
     (case apply_isolation_level drv requested conn s of
        (lvl, Some e, s1) \<Rightarrow> (lvl, Some e, s1)
      | (lvl, None, s1) \<Rightarrow>
          (case body conn (world s1) of (r, w) \<Rightarrow> (lvl, r, s1\<lparr>world := w\<rparr>)))"

text \<open>
  The \<open>except\<close> clause, lines 58 to 64, entered with the exception \<open>e\<close> of the \<open>try\<close>
  block. It returns the new value of the variable \<open>conn\<close> and the exception that leaves
  the clause: \<open>e\<close> again through the bare \<open>raise\<close>, unless \<open>closeall\<close> or \<open>_rollback\<close>
  has raised first. When \<open>_rollback\<close> raises, the assignment of line 63 does not take
  place and \<open>conn\<close> keeps the handle.
\<close>

definition except_block ::
  "('c, 'w) driver \<Rightarrow> 'c \<Rightarrow> exn \<Rightarrow> ('c, 'w) state \<Rightarrow>
     'c option \<times> unit outcome \<times> ('c, 'w) state" where
  "except_block drv conn e s =
     (if \<not> connected drv conn (world s) then
        (case closeall drv s of
           (None, s1) \<Rightarrow> (None, Raised e, s1)
         | (Some e1, s1) \<Rightarrow> (None, Raised e1, s1))
      else
        (case rollback' drv conn s of
           (Inr conn1, s1) \<Rightarrow> (conn1, Raised e, s1)
         | (Inl e1, s1) \<Rightarrow> (Some conn, Raised e1, s1)))"

text \<open>
  The \<open>else\<close> clause, lines 65 to 68, entered when the \<open>try\<close> block has not raised.
  An exception raised here is not seen by the \<open>except\<close> clause of the same statement.
\<close>

definition else_block ::
  "('c, 'w) driver \<Rightarrow> 'c \<Rightarrow> ('c, 'w) state \<Rightarrow> unit outcome \<times> ('c, 'w) state" where
  "else_block drv conn s =
     (if \<not> connected drv conn (world s) then (Raised raise_OperationalError, s)
      else
        (case commit drv conn (world s) of
           (None, w) \<Rightarrow> (Returned (), s\<lparr>world := w, calls := calls s @ [Commit conn]\<rparr>)
         | (Some e, w) \<Rightarrow> (Raised e, s\<lparr>world := w, calls := calls s @ [Commit conn]\<rparr>)))"

text \<open>
  The \<open>finally\<close> clause, lines 69 to 73, entered with the variable \<open>conn\<close>, the variable
  \<open>isolation_level\<close> and the pending outcome. An exception of line 72 replaces the
  pending outcome, and line 73 is not reached.
\<close>

definition finally_block ::
  "('c, 'w) driver \<Rightarrow> 'c option \<Rightarrow> level option \<Rightarrow> unit outcome \<Rightarrow> ('c, 'w) state \<Rightarrow>
     unit outcome \<times> ('c, 'w) state" where
  "finally_block drv conn_var lvl_var pending s =
     (case conn_var of
        None \<Rightarrow> (pending, s)
      | Some conn \<Rightarrow>
          (if connected drv conn (world s) then
             (case lvl_var of
                None \<Rightarrow> (pending, put conn s)
              | Some lvl \<Rightarrow>
                  (case set_isolation_level drv conn lvl (world s) of
                     (None, w) \<Rightarrow>
                       (pending,
                        put conn (s\<lparr>world := w, calls := calls s @ [SetIsolationLevel conn lvl]\<rparr>))
                   | (Some e, w) \<Rightarrow>
                       (Raised e,
                        s\<lparr>world := w, calls := calls s @ [SetIsolationLevel conn lvl]\<rparr>)))
           else (pending, s)))"

definition connection ::
  "('c, 'w) driver \<Rightarrow> level option \<Rightarrow> ('c, 'w) body \<Rightarrow> ('c, 'w) state \<Rightarrow>
     unit outcome \<times> ('c, 'w) state" where
  "connection drv requested body s =
     (case get drv s of
        (Blocked, s0) \<Rightarrow> (Blocked, s0)
      | (Raised e, s0) \<Rightarrow> (Raised e, s0)
      | (Returned conn, s0) \<Rightarrow>
          (case try_block drv requested conn body s0 of
             (lvl, Some e, s1) \<Rightarrow>
               (case except_block drv conn e s1 of
                  (conn1, pending, s2) \<Rightarrow> finally_block drv conn1 lvl pending s2)
           | (lvl, None, s1) \<Rightarrow>
               (case else_block drv conn s1 of
                  (pending, s2) \<Rightarrow> finally_block drv (Some conn) lvl pending s2)))"

subsection \<open>Sequences of \<open>get\<close> and \<open>put\<close>\<close>

text \<open>
  The callers of a pool, one operation after the other. A caller whose \<open>get\<close> blocks
  stays a waiter on the queue (\<open>waiting\<close> counts them); the next \<open>put\<close> wakes the
  first waiter, whose \<open>Queue.get\<close> then returns the front of the queue. \<open>made\<close> lists
  the handles the factory has returned: a \<open>get\<close> that returns a handle after it has
  called the factory returns a new connection.
\<close>

datatype 'c op = Get | Put 'c

record ('c, 'w) callers =
  waiting :: nat
  made :: "'c list"
  st :: "('c, 'w) state"

definition start :: "('c, 'w) state \<Rightarrow> ('c, 'w) callers" where
  "start s = \<lparr>waiting = 0, made = [], st = s\<rparr>"

fun step :: "('c, 'w) driver \<Rightarrow> 'c op \<Rightarrow> ('c, 'w) callers \<Rightarrow> ('c, 'w) callers" where
  "step drv Get r =
     (case get drv (st r) of
        (Blocked, s1) \<Rightarrow> r\<lparr>waiting := Suc (waiting r), st := s1\<rparr>
      | (Raised e, s1) \<Rightarrow> r\<lparr>st := s1\<rparr>
      | (Returned item, s1) \<Rightarrow>
          (if calls s1 = calls (st r) then r\<lparr>st := s1\<rparr>
           else r\<lparr>made := made r @ [item], st := s1\<rparr>))"
| "step drv (Put item) r =
     (let s1 = put item (st r) in
      case waiting r of
        0 \<Rightarrow> r\<lparr>st := s1\<rparr>
      | Suc n \<Rightarrow>
          (case pool s1 of
             [] \<Rightarrow> r\<lparr>st := s1\<rparr>
           | front # rest \<Rightarrow> r\<lparr>waiting := n, st := s1\<lparr>pool := rest\<rparr>\<rparr>))"

fun run :: "('c, 'w) driver \<Rightarrow> 'c op list \<Rightarrow> ('c, 'w) callers \<Rightarrow> ('c, 'w) callers" where
  "run drv [] r = r"
| "run drv (x # ops) r = run drv ops (step drv x r)"

text \<open>The handles that successive calls of \<open>get\<close> return, up to the first that does not.\<close>

fun gets :: "('c, 'w) driver \<Rightarrow> nat \<Rightarrow> ('c, 'w) state \<Rightarrow> 'c list \<times> ('c, 'w) state" where
  "gets drv 0 s = ([], s)"
| "gets drv (Suc n) s =
     (case get drv s of
        (Returned item, s1) \<Rightarrow> (case gets drv n s1 of (items, s2) \<Rightarrow> (item # items, s2))
      | (r, s1) \<Rightarrow> ([], s1))"

subsection \<open>A scripted driver for concrete runs\<close>

text \<open>
  A world with connections numbered from \<open>fresh\<close> on. Each call that can fail takes the
  next entry of \<open>script\<close> as the exception it raises (\<open>None\<close>, or an empty script: it
  succeeds). \<open>close\<close> leaves the connection not connected; \<open>handle_error\<close> keeps what
  it is given in \<open>reported\<close> and returns, as the hub does for a caller in a greenlet of
  its own.
\<close>

record sim =
  is_alive :: "nat \<Rightarrow> bool"
  level_of :: "nat \<Rightarrow> level"
  script :: "exn option list"
  fresh :: nat
  reported :: "(nat \<times> exn) list"

definition next_outcome :: "sim \<Rightarrow> exn option \<times> sim" where
  "next_outcome w = (case script w of [] \<Rightarrow> (None, w) | r # rs \<Rightarrow> (r, w\<lparr>script := rs\<rparr>))"

definition sim_create :: "sim \<Rightarrow> (exn + nat) \<times> sim" where
  "sim_create w =
     (case next_outcome w of
        (Some e, w1) \<Rightarrow> (Inl e, w1)
      | (None, w1) \<Rightarrow>
          (Inr (fresh w1), w1\<lparr>is_alive := (is_alive w1)(fresh w1 := True), fresh := Suc (fresh w1)\<rparr>))"

definition sim_set_level :: "nat \<Rightarrow> level \<Rightarrow> sim \<Rightarrow> exn option \<times> sim" where
  "sim_set_level c lvl w =
     (case next_outcome w of
        (Some e, w1) \<Rightarrow> (Some e, w1)
      | (None, w1) \<Rightarrow> (None, w1\<lparr>level_of := (level_of w1)(c := lvl)\<rparr>))"

definition sim_close :: "nat \<Rightarrow> sim \<Rightarrow> exn option \<times> sim" where
  "sim_close c w =
     (case next_outcome w of (r, w1) \<Rightarrow> (r, w1\<lparr>is_alive := (is_alive w1)(c := False)\<rparr>))"

definition sim_driver :: "(nat, sim) driver" where
  "sim_driver =
     \<lparr>create_connection = sim_create,
      connected = (\<lambda>c w. is_alive w c),
      isolation_level = (\<lambda>c w. level_of w c),
      set_isolation_level = sim_set_level,
      commit = (\<lambda>c w. next_outcome w),
      rollback = (\<lambda>c w. next_outcome w),
      close = sim_close,
      handle_error = (\<lambda>c e w. (None, w\<lparr>reported := reported w @ [(c, e)]\<rparr>))\<rparr>"

text \<open>
  A world in which the connections \<open>0 .. n - 1\<close> exist, are connected and have isolation
  level \<open>1\<close>, and a pool over it.
\<close>

definition sim_world :: "nat \<Rightarrow> exn option list \<Rightarrow> sim" where
  "sim_world n sc =
     \<lparr>is_alive = (\<lambda>c. c < n), level_of = (\<lambda>c. 1), script = sc, fresh = n, reported = []\<rparr>"

definition sim_pool :: "int \<Rightarrow> nat list \<Rightarrow> nat \<Rightarrow> exn option list \<Rightarrow> (nat, sim) state" where
  "sim_pool m idle n sc =
     \<lparr>maxsize = m, pool = idle, size' = int n, world = sim_world n sc, calls = []\<rparr>"

text \<open>The caller's work in these runs: it succeeds, it raises, or the connection drops.\<close>

definition work_ok :: "(nat, sim) body" where
  "work_ok c w = (None, w)"

definition work_raises :: "exn \<Rightarrow> (nat, sim) body" where
  "work_raises e c w = (Some e, w)"

definition drop_connection :: "nat \<Rightarrow> sim \<Rightarrow> sim" where
  "drop_connection c w = w\<lparr>is_alive := (is_alive w)(c := False)\<rparr>"

definition work_ok_dropped :: "(nat, sim) body" where
  "work_ok_dropped c w = (None, drop_connection c w)"

definition work_raises_dropped :: "exn \<Rightarrow> (nat, sim) body" where
  "work_raises_dropped e c w = (Some e, drop_connection c w)"




definition sim_driver_commit_drops :: "(nat, sim) driver" where
  "sim_driver_commit_drops = sim_driver\<lparr>commit := (\<lambda>c w. (Some (Error 3), drop_connection c w))\<rparr>"

definition sim_driver_rollback_drops :: "(nat, sim) driver" where
  "sim_driver_rollback_drops = sim_driver\<lparr>rollback := (\<lambda>c w. (None, drop_connection c w))\<rparr>"

section \<open>Properties\<close>

lemmas sim_defs =
  sim_driver_def sim_create_def sim_set_level_def sim_close_def next_outcome_def
  sim_world_def sim_pool_def work_ok_def work_raises_def drop_connection_def
  work_ok_dropped_def work_raises_dropped_def

lemmas pool_defs =
  connection_def get_def put_def closeall_def rollback'_def apply_isolation_level_def
  try_block_def except_block_def else_block_def finally_block_def raise_OperationalError_def
  module_names_def

subsection \<open>Acquisition\<close>

text \<open>What \<open>get\<close> does in each of its three cases, and what it leaves alone.\<close>

lemma get_takes_front:
  "pool s = item # rest \<Longrightarrow> get drv s = (Returned item, s\<lparr>pool := rest\<rparr>)"
  by (simp add: get_def)

lemma get_blocks:
  "pool s = [] \<Longrightarrow> maxsize s \<le> size' s \<Longrightarrow> get drv s = (Blocked, s)"
  by (simp add: get_def)

lemma get_calls:
  "calls (snd (get drv s)) =
     (if pool s = [] \<and> size' s < maxsize s then calls s @ [CreateConnection] else calls s)"
  by (simp add: get_def Let_def split: list.splits prod.splits sum.splits)

lemma get_maxsize: "maxsize (snd (get drv s)) = maxsize s"
  by (simp add: get_def Let_def split: list.splits prod.splits sum.splits)

lemma get_size_bounds:
  "size' s \<le> size' (snd (get drv s)) \<and> size' (snd (get drv s)) \<le> max (size' s) (maxsize s)"
  by (simp add: get_def Let_def split: list.splits prod.splits sum.splits)

lemma get_creates:
  assumes "pool s = []" and "size' s < maxsize s"
    and "create_connection drv (world s) = (Inr item, w)"
  shows "get drv s =
    (Returned item, s\<lparr>size' := size' s + 1, world := w, calls := calls s @ [CreateConnection]\<rparr>)"
  using assms by (simp add: get_def)

lemma get_fails:
  assumes "pool s = []" and "size' s < maxsize s"
    and "create_connection drv (world s) = (Inl e, w)"
  shows "get drv s = (Raised e, s\<lparr>world := w, calls := calls s @ [CreateConnection]\<rparr>)"
  using assms by (simp add: get_def)

text \<open>
  One operation of a caller keeps \<open>maxsize\<close>, keeps \<open>size\<close> below it, and keeps the
  difference between \<open>size\<close> and the number of handles the factory has returned.
\<close>

lemma step_Get:
  "maxsize (st (step drv Get r)) = maxsize (st r)
   \<and> size' (st (step drv Get r)) - int (length (made (step drv Get r))) =
       size' (st r) - int (length (made r))
   \<and> (size' (st r) \<le> maxsize (st r) \<longrightarrow> size' (st (step drv Get r)) \<le> maxsize (st r))"
proof (cases "pool (st r)")
  case (Cons item rest)
  then show ?thesis by (simp add: get_takes_front)
next
  case Nil
  show ?thesis
  proof (cases "size' (st r) < maxsize (st r)")
    case False
    with Nil show ?thesis by (simp add: get_blocks)
  next
    case True
    obtain x w where c: "create_connection drv (world (st r)) = (x, w)"
      by (cases "create_connection drv (world (st r))")
    show ?thesis
    proof (cases x)
      case (Inl e)
      with get_fails [OF Nil True, of drv e w] c show ?thesis by simp
    next
      case (Inr item)
      with get_creates [OF Nil True, of drv item w] c True show ?thesis by simp
    qed
  qed
qed

lemma step_Put:
  "maxsize (st (step drv (Put item) r)) = maxsize (st r)
   \<and> size' (st (step drv (Put item) r)) = size' (st r)
   \<and> made (step drv (Put item) r) = made r"
  by (simp add: put_def Let_def split: nat.splits list.splits)

lemma step_keeps:
  "maxsize (st (step drv x r)) = maxsize (st r)
   \<and> size' (st (step drv x r)) - int (length (made (step drv x r))) =
       size' (st r) - int (length (made r))
   \<and> (size' (st r) \<le> maxsize (st r) \<longrightarrow> size' (st (step drv x r)) \<le> maxsize (st r))"
proof (cases x)
  case Get
  with step_Get [of drv r] show ?thesis by simp
next
  case (Put item)
  with step_Put [of drv item r] show ?thesis by simp
qed

lemma run_keeps:
  "size' (st r) \<le> maxsize (st r) \<Longrightarrow>
     maxsize (st (run drv ops r)) = maxsize (st r)
     \<and> size' (st (run drv ops r)) \<le> maxsize (st r)
     \<and> size' (st (run drv ops r)) - int (length (made (run drv ops r))) =
         size' (st r) - int (length (made r))"
proof (induction ops arbitrary: r)
  case Nil
  then show ?case by simp
next
  case (Cons x ops)
  from step_keeps [of drv x r] Cons.prems
  have k: "maxsize (st (step drv x r)) = maxsize (st r)"
    "size' (st (step drv x r)) \<le> maxsize (st r)"
    "size' (st (step drv x r)) - int (length (made (step drv x r))) =
       size' (st r) - int (length (made r))"
    by simp_all
  from k(1,2) have "size' (st (step drv x r)) \<le> maxsize (st (step drv x r))" by simp
  from Cons.IH [OF this] k show ?case by simp
qed

lemma gets_queue:
  "n \<le> length (pool s) \<Longrightarrow> gets drv n s = (take n (pool s), s\<lparr>pool := drop n (pool s)\<rparr>)"
proof (induction n arbitrary: s)
  case 0
  show ?case by simp
next
  case (Suc n)
  then obtain item rest where q: "pool s = item # rest"
    by (cases "pool s") auto
  with Suc.prems have "n \<le> length (pool (s\<lparr>pool := rest\<rparr>))" by simp
  from Suc.IH [OF this] q show ?case
    by (simp add: get_takes_front)
qed

text \<open>
  C1. On a pool constructed with \<open>maxsize = N\<close>, \<open>N\<close> not negative (the capacity of the
  data model is a positive integer), after every sequence of \<open>get\<close> and \<open>put\<close> \<open>size\<close>
  is the number of connections the factory has returned, and it is at most \<open>N\<close>.
  \<open>get\<close> calls the factory exactly when the idle queue is empty and \<open>size < maxsize\<close>:
  it then returns the new handle with \<open>size\<close> one higher, or raises what the factory has
  raised. Otherwise it takes the front of the idle queue, and blocks when the queue is
  empty.
\<close>

theorem size_never_exceeds_maxsize:
  assumes "0 \<le> N" and "init (PyInt N) w = Inr s0"
  shows "size' (st (run drv ops (start s0))) \<le> N
    \<and> int (length (made (run drv ops (start s0)))) = size' (st (run drv ops (start s0)))
    \<and> maxsize (st (run drv ops (start s0))) = N
    \<and> calls (snd (get drv s)) =
        (if pool s = [] \<and> size' s < maxsize s then calls s @ [CreateConnection] else calls s)
    \<and> (case pool s of
          item # rest \<Rightarrow> get drv s = (Returned item, s\<lparr>pool := rest\<rparr>)
        | [] \<Rightarrow>
            if size' s < maxsize s then
              (case create_connection drv (world s) of
                 (Inr item, w1) \<Rightarrow>
                   get drv s =
                     (Returned item,
                      s\<lparr>size' := size' s + 1, world := w1,
                        calls := calls s @ [CreateConnection]\<rparr>)
               | (Inl e, w1) \<Rightarrow>
                   get drv s =
                     (Raised e, s\<lparr>world := w1, calls := calls s @ [CreateConnection]\<rparr>))
            else get drv s = (Blocked, s))"
proof -
  from assms(2) have s0: "maxsize s0 = N" "size' s0 = 0"
    by (auto simp: init_def)
  with assms(1) have "size' (st (start s0)) \<le> maxsize (st (start s0))"
    by (simp add: start_def)
  from run_keeps [OF this, of drv ops]
  have bound: "size' (st (run drv ops (start s0))) \<le> N"
    and count: "int (length (made (run drv ops (start s0)))) = size' (st (run drv ops (start s0)))"
    and cap: "maxsize (st (run drv ops (start s0))) = N"
    by (simp_all add: start_def s0)
  have cases: "(case pool s of
          item # rest \<Rightarrow> get drv s = (Returned item, s\<lparr>pool := rest\<rparr>)
        | [] \<Rightarrow>
            if size' s < maxsize s then
              (case create_connection drv (world s) of
                 (Inr item, w1) \<Rightarrow>
                   get drv s =
                     (Returned item,
                      s\<lparr>size' := size' s + 1, world := w1,
                        calls := calls s @ [CreateConnection]\<rparr>)
               | (Inl e, w1) \<Rightarrow>
                   get drv s =
                     (Raised e, s\<lparr>world := w1, calls := calls s @ [CreateConnection]\<rparr>))
            else get drv s = (Blocked, s))"
    by (simp add: get_def Let_def split: list.splits prod.splits sum.splits)
  from bound count cap cases show ?thesis
    by (simp add: get_calls)
qed

theorem size_never_exceeds_maxsize_witness:
  "(0::int) \<le> 1
   \<and> init (PyInt 1) (sim_world 0 []) = Inr (sim_pool 1 [] 0 [])
   \<and> size' (st (run sim_driver [Get, Get, Put 0, Get] (start (sim_pool 1 [] 0 [])))) \<le> 1
   \<and> made (run sim_driver [Get, Get, Put 0, Get] (start (sim_pool 1 [] 0 []))) = [0]
   \<and> waiting (run sim_driver [Get, Get, Put 0, Get] (start (sim_pool 1 [] 0 []))) = 1
   \<and> pool (st (run sim_driver [Get, Get, Put 0, Get] (start (sim_pool 1 [] 0 [])))) = []
   \<and> calls (st (run sim_driver [Get, Get, Put 0, Get] (start (sim_pool 1 [] 0 []))))
       = [CreateConnection]"
proof -
  have a: "(0::int) \<le> 1" by simp
  have b: "init (PyInt 1) (sim_world 0 []) = Inr (sim_pool 1 [] 0 [])"
    by (simp add: init_def sim_pool_def)
  have c: "made (run sim_driver [Get, Get, Put 0, Get] (start (sim_pool 1 [] 0 []))) = [0]
    \<and> waiting (run sim_driver [Get, Get, Put 0, Get] (start (sim_pool 1 [] 0 []))) = 1
    \<and> pool (st (run sim_driver [Get, Get, Put 0, Get] (start (sim_pool 1 [] 0 [])))) = []
    \<and> calls (st (run sim_driver [Get, Get, Put 0, Get] (start (sim_pool 1 [] 0 []))))
        = [CreateConnection]"
    by (simp add: start_def pool_defs sim_defs)
  from size_never_exceeds_maxsize [OF a b, of sim_driver "[Get, Get, Put 0, Get]"] a b c
  show ?thesis
    by simp
qed

text \<open>
  C8. When the factory fails during \<open>get\<close>, the failure reaches the caller as it is,
  \<open>size\<close> is back at its value before the call, the idle queue and \<open>maxsize\<close> are as
  before, the factory has been called once (no retry), and the next \<open>get\<close> calls the
  factory again.
\<close>

theorem get_factory_failure:
  assumes "pool s = []" and "size' s < maxsize s"
    and "create_connection drv (world s) = (Inl e, w)"
  shows "get drv s = (Raised e, s\<lparr>world := w, calls := calls s @ [CreateConnection]\<rparr>)
    \<and> size' (snd (get drv s)) = size' s
    \<and> pool (snd (get drv s)) = pool s
    \<and> maxsize (snd (get drv s)) = maxsize s
    \<and> calls (snd (get drv (snd (get drv s)))) =
        calls s @ [CreateConnection, CreateConnection]"
proof -
  let ?s1 = "s\<lparr>world := w, calls := calls s @ [CreateConnection]\<rparr>"
  have first: "get drv s = (Raised e, ?s1)"
    using assms by (simp add: get_def)
  have "calls (snd (get drv ?s1)) = calls ?s1 @ [CreateConnection]"
    using assms(1,2) by (simp add: get_def Let_def split: prod.splits sum.splits)
  with first show ?thesis by simp
qed

theorem get_factory_failure_witness:
  "pool (sim_pool 2 [] 0 [Some (Error 7)]) = []
   \<and> size' (sim_pool 2 [] 0 [Some (Error 7)]) < maxsize (sim_pool 2 [] 0 [Some (Error 7)])
   \<and> fst (get sim_driver (sim_pool 2 [] 0 [Some (Error 7)])) = Raised (Error 7)
   \<and> size' (snd (get sim_driver (sim_pool 2 [] 0 [Some (Error 7)]))) = 0
   \<and> pool (snd (get sim_driver (sim_pool 2 [] 0 [Some (Error 7)]))) = []"
proof -
  let ?s = "sim_pool 2 [] 0 [Some (Error 7)]"
  have a: "pool ?s = []" and b: "size' ?s < maxsize ?s"
    by (simp_all add: sim_pool_def)
  have c: "create_connection sim_driver (world ?s) =
      (Inl (Error 7), (sim_world 0 [Some (Error 7)])\<lparr>script := []\<rparr>)"
    by (simp add: sim_pool_def sim_driver_def sim_create_def next_outcome_def sim_world_def)
  have d: "size' ?s = 0"
    by (simp add: sim_pool_def)
  from get_factory_failure [OF a b c] a b d show ?thesis
    by simp
qed

subsection \<open>The blocks of \<open>connection\<close>\<close>



text \<open>No block writes \<open>size\<close>.\<close>

lemma closeall_size: "size' (snd (closeall drv s)) = size' s"
  by (simp add: closeall_def split: prod.splits)

lemma rollback'_size: "size' (snd (rollback' drv conn s)) = size' s"
  by (simp add: rollback'_def split: prod.splits option.splits)

lemma try_block_size: "size' (snd (snd (try_block drv requested conn body s))) = size' s"
  by (simp add: try_block_def apply_isolation_level_def split: prod.splits option.splits)

lemma except_block_size: "size' (snd (snd (except_block drv conn e s))) = size' s"
  using closeall_size [of drv s] rollback'_size [of drv conn s]
  by (auto simp: except_block_def split: prod.splits option.splits sum.splits)

lemma else_block_size: "size' (snd (else_block drv conn s)) = size' s"
  by (simp add: else_block_def split: prod.splits option.splits)

lemma finally_block_size: "size' (snd (finally_block drv cv lv pending s)) = size' s"
  by (simp add: finally_block_def put_def split: prod.splits option.splits)

lemma connection_size:
  "size' (snd (connection drv requested body s)) = size' (snd (get drv s))"
proof (cases "get drv s")
  case (Pair r s0)
  show ?thesis
  proof (cases r)
    case (Returned conn)
    obtain lvl x s1 where t: "try_block drv requested conn body s0 = (lvl, x, s1)"
      by (cases "try_block drv requested conn body s0")
    from try_block_size [of drv requested conn body s0] t have s1: "size' s1 = size' s0"
      by simp
    show ?thesis
    proof (cases x)
      case None
      obtain pending s2 where e: "else_block drv conn s1 = (pending, s2)"
        by (cases "else_block drv conn s1")
      from else_block_size [of drv conn s1] e have "size' s2 = size' s1" by simp
      with Pair Returned t None e s1 show ?thesis
        by (simp add: connection_def finally_block_size)
    next
      case (Some e)
      obtain conn1 pending s2 where x: "except_block drv conn e s1 = (conn1, pending, s2)"
        by (cases "except_block drv conn e s1")
      from except_block_size [of drv conn e s1] x have "size' s2 = size' s1" by simp
      with Pair Returned t Some x s1 show ?thesis
        by (simp add: connection_def finally_block_size)
    qed
  next
    case (Raised e)
    with Pair show ?thesis by (simp add: connection_def)
  next
    case Blocked
    with Pair show ?thesis by (simp add: connection_def)
  qed
qed

text \<open>
  Lines 52 to 56 leave the queue alone and call nothing but \<open>set_isolation_level\<close>; the
  level they hand to the \<open>finally\<close> clause is the requested one, which the connection
  did not have.
\<close>

lemma apply_isolation_level_keeps:
  "apply_isolation_level drv requested conn s0 = (lvl, x, s1) \<Longrightarrow>
     pool s1 = pool s0 \<and> size' s1 = size' s0 \<and> maxsize s1 = maxsize s0"
  by (auto simp: apply_isolation_level_def split: option.splits if_splits prod.splits)

lemma apply_isolation_level_calls:
  "apply_isolation_level drv requested conn s0 = (lvl, x, s1) \<Longrightarrow>
     calls s1 = calls s0 @ (case lvl of None \<Rightarrow> [] | Some l \<Rightarrow> [SetIsolationLevel conn l])"
  by (auto simp: apply_isolation_level_def split: option.splits if_splits prod.splits)

lemma apply_isolation_level_var:
  "apply_isolation_level drv requested conn s0 = (Some l, x, s1) \<Longrightarrow>
     requested = Some l \<and> isolation_level drv conn (world s0) \<noteq> l"
  by (auto simp: apply_isolation_level_def split: option.splits if_splits prod.splits)

lemma enter_counts:
  assumes "get drv s = (Returned conn, s0)"
    and "apply_isolation_level drv requested conn s0 = (lvl, x, s1)"
  shows "count_list (calls s1) (Commit c) = count_list (calls s) (Commit c)
    \<and> count_list (calls s1) (Rollback c) = count_list (calls s) (Rollback c)
    \<and> count_list (calls s1) (Close c) = count_list (calls s) (Close c)
    \<and> count_list (calls s1) (HandleError c y) = count_list (calls s) (HandleError c y)"
proof -
  from get_calls [of drv s] assms(1)
  have "calls s0 = calls s \<or> calls s0 = calls s @ [CreateConnection]"
    by (simp split: if_splits)
  with apply_isolation_level_calls [OF assms(2)] show ?thesis
    by (auto split: option.splits)
qed

lemma finally_block_counts:
  "count_list (calls (snd (finally_block drv cv lv pending s))) (Commit c) =
     count_list (calls s) (Commit c)
   \<and> count_list (calls (snd (finally_block drv cv lv pending s))) (Rollback c) =
     count_list (calls s) (Rollback c)
   \<and> count_list (calls (snd (finally_block drv cv lv pending s))) (HandleError c x) =
     count_list (calls s) (HandleError c x)"
  by (simp add: finally_block_def put_def split: option.splits prod.splits)

lemma finally_block_releases:
  assumes "connected drv conn (world s)"
    and "\<forall>l. lvl = Some l \<longrightarrow> fst (set_isolation_level drv conn l (world s)) = None"
  shows "fst (finally_block drv (Some conn) lvl pending s) = pending
    \<and> pool (snd (finally_block drv (Some conn) lvl pending s)) = pool s @ [conn]"
  using assms by (auto simp: finally_block_def put_def split: option.splits prod.splits)

subsection \<open>The transaction scope\<close>

text \<open>
  C2. The claim: a scope entered with an isolation level that differs from the
  connection's applies it before the caller's work and restores the previous level before
  the connection is released, on the success path and on the failure path. The code does
  the first and not the second: line 72 passes the requested level again, the previous
  one is never saved. Here a connection at level \<open>1\<close> is asked for level \<open>2\<close>: on both
  paths \<open>set_isolation_level\<close> is called with \<open>2\<close> before the work and with \<open>2\<close> again in
  the \<open>finally\<close> clause, and the connection is back in the queue at level \<open>2\<close>.
\<close>

theorem isolation_level_not_restored:
  "level_of (world (sim_pool 2 [0] 1 [])) 0 = 1
   \<and> fst (connection sim_driver (Some 2) work_ok (sim_pool 2 [0] 1 [])) = Returned ()
   \<and> calls (snd (connection sim_driver (Some 2) work_ok (sim_pool 2 [0] 1 [])))
       = [SetIsolationLevel 0 2, Commit 0, SetIsolationLevel 0 2]
   \<and> pool (snd (connection sim_driver (Some 2) work_ok (sim_pool 2 [0] 1 []))) = [0]
   \<and> level_of (world (snd (connection sim_driver (Some 2) work_ok (sim_pool 2 [0] 1 [])))) 0 = 2
   \<and> fst (connection sim_driver (Some 2) (work_raises (Error 5)) (sim_pool 2 [0] 1 []))
       = Raised (Error 5)
   \<and> calls (snd (connection sim_driver (Some 2) (work_raises (Error 5)) (sim_pool 2 [0] 1 [])))
       = [SetIsolationLevel 0 2, Rollback 0, SetIsolationLevel 0 2]
   \<and> pool (snd (connection sim_driver (Some 2) (work_raises (Error 5)) (sim_pool 2 [0] 1 [])))
       = [0]
   \<and> level_of (world (snd (connection sim_driver (Some 2) (work_raises (Error 5))
        (sim_pool 2 [0] 1 [])))) 0 = 2"
  by (simp add: pool_defs sim_defs)

text \<open>
  C3, as amended. The exception raised at line 67, in the \<open>else\<close> clause, when the work
  has succeeded on a connection that no longer reports connected, does not reach the
  \<open>except\<close> clause: it propagates through the \<open>finally\<close> clause. No rollback is
  attempted and the handle is not returned to the pool, and the idle queue is left as it
  is: nothing is drained, no idle connection is closed.
\<close>

theorem dead_connection_fault_skips_except:
  assumes "get drv s = (Returned conn, s0)"
    and "apply_isolation_level drv requested conn s0 = (lvl, None, s1)"
    and "body conn (world s1) = (None, w2)"
    and "\<not> connected drv conn w2"
  shows "connection drv requested body s = (Raised raise_OperationalError, s1\<lparr>world := w2\<rparr>)
    \<and> pool (snd (connection drv requested body s)) = pool s0
    \<and> calls (snd (connection drv requested body s)) = calls s1
    \<and> count_list (calls (snd (connection drv requested body s))) (Rollback conn) =
        count_list (calls s) (Rollback conn)"
proof -
  have t: "try_block drv requested conn body s0 = (lvl, None, s1\<lparr>world := w2\<rparr>)"
    using assms(2,3) by (simp add: try_block_def)
  have x: "else_block drv conn (s1\<lparr>world := w2\<rparr>) =
      (Raised raise_OperationalError, s1\<lparr>world := w2\<rparr>)"
    using assms(4) by (simp add: else_block_def)
  have "connection drv requested body s = (Raised raise_OperationalError, s1\<lparr>world := w2\<rparr>)"
    using assms(1,4) t x by (simp add: connection_def finally_block_def)
  with apply_isolation_level_keeps [OF assms(2)] enter_counts [OF assms(1,2), of conn]
  show ?thesis by simp
qed

theorem dead_connection_fault_skips_except_witness:
  "fst (connection sim_driver None work_ok_dropped (sim_pool 3 [0, 1, 2] 3 []))
     = Raised raise_OperationalError
   \<and> pool (snd (connection sim_driver None work_ok_dropped (sim_pool 3 [0, 1, 2] 3 [])))
     = [1, 2]
   \<and> calls (snd (connection sim_driver None work_ok_dropped (sim_pool 3 [0, 1, 2] 3 []))) = []"
proof -
  let ?s = "sim_pool 3 [0, 1, 2] 3 []"
  let ?t = "?s\<lparr>pool := [1, 2::nat]\<rparr>"
  let ?w = "drop_connection 0 (sim_world 3 [])"
  have a: "get sim_driver ?s = (Returned 0, ?t)"
    by (simp add: get_def sim_pool_def)
  have b: "apply_isolation_level sim_driver None 0 ?t = (None, None, ?t)"
    by (simp add: apply_isolation_level_def)
  have c: "work_ok_dropped 0 (world ?t) = (None, ?w)"
    by (simp add: work_ok_dropped_def sim_pool_def)
  have d: "\<not> connected sim_driver 0 ?w"
    by (simp add: sim_driver_def drop_connection_def)
  from dead_connection_fault_skips_except [where body = work_ok_dropped, OF a b c d]
  show ?thesis
    by (simp add: sim_pool_def)
qed

text \<open>
  C3 as stated asks for a full drain of the idle queue. With two idle connections, the
  scope takes the first; the work succeeds and the connection drops. The second
  connection is still in the queue afterwards, and still open: \<open>close\<close> was not called.
\<close>

theorem dead_connection_fault_no_drain:
  "fst (connection sim_driver None work_ok_dropped (sim_pool 2 [0, 1] 2 []))
     = Raised raise_OperationalError
   \<and> pool (snd (connection sim_driver None work_ok_dropped (sim_pool 2 [0, 1] 2 []))) = [1]
   \<and> calls (snd (connection sim_driver None work_ok_dropped (sim_pool 2 [0, 1] 2 []))) = []
   \<and> is_alive (world (snd (connection sim_driver None work_ok_dropped
        (sim_pool 2 [0, 1] 2 [])))) 1"
  by (simp add: pool_defs sim_defs)

text \<open>
  C4. The claim: when the work succeeds and the connection then reports not connected, the
  scope raises the dead-connection-on-commit error, does not commit and does not return
  the handle. The code does not commit and does not return the handle, but the exception
  it raises is \<open>NameError\<close>: line 67 names \<open>OperationalError\<close>, which the module never
  imports.
\<close>

theorem dead_connection_raises_NameError:
  "fst (connection sim_driver None work_ok_dropped (sim_pool 1 [0] 1 []))
     = Raised (NameError ''OperationalError'')
   \<and> fst (connection sim_driver None work_ok_dropped (sim_pool 1 [0] 1 []))
     \<noteq> Raised OperationalError
   \<and> calls (snd (connection sim_driver None work_ok_dropped (sim_pool 1 [0] 1 []))) = []
   \<and> pool (snd (connection sim_driver None work_ok_dropped (sim_pool 1 [0] 1 []))) = []"
  by (simp add: pool_defs sim_defs)

text \<open>
  C5, as amended. When the caller's work raises on a connection that still reports
  connected and \<open>rollback\<close> returns, the scope has called \<open>rollback\<close> exactly once on
  the connection and \<open>commit\<close> not at all. The caller's exception is the one that
  propagates, unless the \<open>set_isolation_level\<close> call of the \<open>finally\<close> clause raises:
  that call is made when the scope has changed the level and the connection still
  reports connected after the rollback, and its exception then propagates instead. The
  connection is put at the back of the idle queue when it still reports connected after
  the rollback and that call, if made, has not raised; otherwise the queue is left as it
  is.
\<close>

theorem fault_on_live_connection_rolls_back:
  assumes "get drv s = (Returned conn, s0)"
    and "apply_isolation_level drv requested conn s0 = (lvl, None, s1)"
    and "body conn (world s1) = (Some e, w2)"
    and "connected drv conn w2"
    and "rollback drv conn w2 = (None, w3)"
  shows "count_list (calls (snd (connection drv requested body s))) (Rollback conn) =
        count_list (calls s) (Rollback conn) + 1
    \<and> count_list (calls (snd (connection drv requested body s))) (Commit conn) =
        count_list (calls s) (Commit conn)
    \<and> fst (connection drv requested body s) =
        (if connected drv conn w3 then
           (case lvl of
              None \<Rightarrow> Raised e
            | Some l \<Rightarrow>
                (case fst (set_isolation_level drv conn l w3) of
                   None \<Rightarrow> Raised e
                 | Some e1 \<Rightarrow> Raised e1))
         else Raised e)
    \<and> pool (snd (connection drv requested body s)) =
        (if connected drv conn w3 then
           (case lvl of
              None \<Rightarrow> pool s0 @ [conn]
            | Some l \<Rightarrow>
                (case fst (set_isolation_level drv conn l w3) of
                   None \<Rightarrow> pool s0 @ [conn]
                 | Some e1 \<Rightarrow> pool s0))
         else pool s0)
    \<and> connection drv requested body s =
        finally_block drv (Some conn) lvl (Raised e)
          (s1\<lparr>world := w3, calls := calls s1 @ [Rollback conn]\<rparr>)"
proof -
  let ?sx = "s1\<lparr>world := w3, calls := calls s1 @ [Rollback conn]\<rparr>"
  have t: "try_block drv requested conn body s0 = (lvl, Some e, s1\<lparr>world := w2\<rparr>)"
    using assms(2,3) by (simp add: try_block_def)
  have x: "except_block drv conn e (s1\<lparr>world := w2\<rparr>) = (Some conn, Raised e, ?sx)"
    using assms(4,5) by (simp add: except_block_def rollback'_def)
  have r: "connection drv requested body s = finally_block drv (Some conn) lvl (Raised e) ?sx"
    using assms(1) t x by (simp add: connection_def)
  have counts: "count_list (calls (snd (connection drv requested body s))) (Rollback conn) =
        count_list (calls s) (Rollback conn) + 1
      \<and> count_list (calls (snd (connection drv requested body s))) (Commit conn) =
        count_list (calls s) (Commit conn)"
    using finally_block_counts [of drv "Some conn" lvl "Raised e" ?sx conn]
      enter_counts [OF assms(1,2), of conn]
    by (simp add: r)
  have q: "pool ?sx = pool s0"
    using apply_isolation_level_keeps [OF assms(2)] by simp
  have out: "fst (finally_block drv (Some conn) lvl (Raised e) ?sx) =
        (if connected drv conn w3 then
           (case lvl of
              None \<Rightarrow> Raised e
            | Some l \<Rightarrow>
                (case fst (set_isolation_level drv conn l w3) of
                   None \<Rightarrow> Raised e
                 | Some e1 \<Rightarrow> Raised e1))
         else Raised e)"
    by (simp add: finally_block_def split: option.splits prod.splits)
  have queued: "pool (snd (finally_block drv (Some conn) lvl (Raised e) ?sx)) =
        (if connected drv conn w3 then
           (case lvl of
              None \<Rightarrow> pool s0 @ [conn]
            | Some l \<Rightarrow>
                (case fst (set_isolation_level drv conn l w3) of
                   None \<Rightarrow> pool s0 @ [conn]
                 | Some e1 \<Rightarrow> pool s0))
         else pool s0)"
    using q by (simp add: finally_block_def put_def split: option.splits prod.splits)
  from counts out queued r show ?thesis
    by (simp only: r)
qed

theorem fault_on_live_connection_rolls_back_witness:
  "fst (connection sim_driver (Some 2) (work_raises (Error 5)) (sim_pool 2 [0] 1 []))
     = Raised (Error 5)
   \<and> pool (snd (connection sim_driver (Some 2) (work_raises (Error 5)) (sim_pool 2 [0] 1 [])))
     = [0]
   \<and> count_list (calls (snd (connection sim_driver (Some 2) (work_raises (Error 5))
        (sim_pool 2 [0] 1 [])))) (Rollback 0) = 1
   \<and> count_list (calls (snd (connection sim_driver (Some 2) (work_raises (Error 5))
        (sim_pool 2 [0] 1 [])))) (Commit 0) = 0"
proof -
  let ?s = "sim_pool 2 [0] 1 []"
  let ?t = "snd (get sim_driver ?s)"
  let ?u = "snd (snd (apply_isolation_level sim_driver (Some 2) 0 ?t))"
  let ?w = "world ?u"
  have a: "get sim_driver ?s = (Returned 0, ?t)"
    by (simp add: get_def sim_pool_def)
  have b: "apply_isolation_level sim_driver (Some 2) 0 ?t = (Some 2, None, ?u)"
    by (simp add: pool_defs sim_defs)
  have c: "work_raises (Error 5) 0 (world ?u) = (Some (Error 5), ?w)"
    by (simp add: work_raises_def)
  have d: "connected sim_driver 0 ?w"
    by (simp add: pool_defs sim_defs)
  have e: "rollback sim_driver 0 ?w = (None, ?w)"
    by (simp add: pool_defs sim_defs)
  have f: "fst (set_isolation_level sim_driver 0 2 ?w) = None"
    by (simp add: pool_defs sim_defs)
  have g: "pool ?t = []" "calls ?s = []"
    by (simp_all add: get_def sim_pool_def)
  note all = fault_on_live_connection_rolls_back
    [where body = "work_raises (Error 5)", OF a b c d e]
  note counts = all [THEN conjunct1] all [THEN conjunct2, THEN conjunct1]
  note outcome = all [THEN conjunct2, THEN conjunct2, THEN conjunct1]
  note queued = all [THEN conjunct2, THEN conjunct2, THEN conjunct2, THEN conjunct1]
  from counts outcome queued d f g show ?thesis
    by simp
qed

text \<open>
  C5 as stated fails in two runs where the work raises \<open>Error 5\<close> on a connected
  connection and \<open>rollback\<close> returns. In the first, the scope has changed the level and
  the \<open>set_isolation_level\<close> call of the \<open>finally\<close> clause raises \<open>Error 9\<close>: that
  exception propagates instead of the caller's, and the connection is not returned. In
  the second, the connection reports not connected once \<open>rollback\<close> has returned: the
  caller's exception propagates, and the connection is not returned.
\<close>

theorem fault_on_live_connection_counterexample:
  "fst (connection sim_driver (Some 2) (work_raises (Error 5))
      (sim_pool 2 [0] 1 [None, None, Some (Error 9)])) = Raised (Error 9)
   \<and> pool (snd (connection sim_driver (Some 2) (work_raises (Error 5))
      (sim_pool 2 [0] 1 [None, None, Some (Error 9)]))) = []
   \<and> calls (snd (connection sim_driver (Some 2) (work_raises (Error 5))
      (sim_pool 2 [0] 1 [None, None, Some (Error 9)])))
     = [SetIsolationLevel 0 2, Rollback 0, SetIsolationLevel 0 2]
   \<and> fst (connection sim_driver_rollback_drops None (work_raises (Error 5))
      (sim_pool 2 [0] 1 [])) = Raised (Error 5)
   \<and> pool (snd (connection sim_driver_rollback_drops None (work_raises (Error 5))
      (sim_pool 2 [0] 1 []))) = []
   \<and> calls (snd (connection sim_driver_rollback_drops None (work_raises (Error 5))
      (sim_pool 2 [0] 1 []))) = [Rollback 0]"
  by (simp add: pool_defs sim_defs sim_driver_rollback_drops_def)







text \<open>
  C9, as amended. When the caller's work returns on a connection that still reports
  connected, the scope calls \<open>commit\<close> exactly once on it and \<open>rollback\<close> not at all. If
  moreover the connection still reports connected after the commit and the
  \<open>set_isolation_level\<close> call of the \<open>finally\<close> clause (made when the scope has changed
  the level) does not raise, the connection is put at the back of the idle queue, and the
  following calls of \<open>get\<close> return the handles queued before it, then that same handle,
  without calling the factory.
\<close>

theorem success_on_live_connection_commits:
  assumes "get drv s = (Returned conn, s0)"
    and "apply_isolation_level drv requested conn s0 = (lvl, None, s1)"
    and "body conn (world s1) = (None, w2)"
    and "connected drv conn w2"
    and "commit drv conn w2 = (r, w3)"
  shows "count_list (calls (snd (connection drv requested body s))) (Commit conn) =
        count_list (calls s) (Commit conn) + 1
    \<and> count_list (calls (snd (connection drv requested body s))) (Rollback conn) =
        count_list (calls s) (Rollback conn)
    \<and> (connected drv conn w3
        \<and> (\<forall>l. lvl = Some l \<longrightarrow> fst (set_isolation_level drv conn l w3) = None)
       \<longrightarrow> fst (connection drv requested body s) =
            (case r of None \<Rightarrow> Returned () | Some e \<Rightarrow> Raised e)
         \<and> pool (snd (connection drv requested body s)) = pool s0 @ [conn]
         \<and> fst (gets drv (Suc (length (pool s0))) (snd (connection drv requested body s))) =
            pool s0 @ [conn]
         \<and> calls (snd (gets drv (Suc (length (pool s0))) (snd (connection drv requested body s))))
            = calls (snd (connection drv requested body s)))"
proof -
  let ?sx = "s1\<lparr>world := w3, calls := calls s1 @ [Commit conn]\<rparr>"
  let ?pending = "case r of None \<Rightarrow> Returned () | Some e \<Rightarrow> Raised e"
  let ?res = "connection drv requested body s"
  have t: "try_block drv requested conn body s0 = (lvl, None, s1\<lparr>world := w2\<rparr>)"
    using assms(2,3) by (simp add: try_block_def)
  have x: "else_block drv conn (s1\<lparr>world := w2\<rparr>) = (?pending, ?sx)"
    using assms(4,5) by (simp add: else_block_def split: option.splits)
  have r: "?res = finally_block drv (Some conn) lvl ?pending ?sx"
    using assms(1) t x by (simp add: connection_def)
  have counts: "count_list (calls (snd ?res)) (Commit conn) = count_list (calls s) (Commit conn) + 1
      \<and> count_list (calls (snd ?res)) (Rollback conn) = count_list (calls s) (Rollback conn)"
    using finally_block_counts [of drv "Some conn" lvl ?pending ?sx conn]
      enter_counts [OF assms(1,2), of conn]
    by (simp add: r)
  have q: "pool ?sx = pool s0"
    using apply_isolation_level_keeps [OF assms(2)] by simp
  have rel: "fst ?res = ?pending \<and> pool (snd ?res) = pool s0 @ [conn]
      \<and> fst (gets drv (Suc (length (pool s0))) (snd ?res)) = pool s0 @ [conn]
      \<and> calls (snd (gets drv (Suc (length (pool s0))) (snd ?res))) = calls (snd ?res)"
    if ok: "connected drv conn w3"
      "\<forall>l. lvl = Some l \<longrightarrow> fst (set_isolation_level drv conn l w3) = None"
  proof -
    from finally_block_releases [of drv conn ?sx lvl ?pending] ok q
    have f: "fst ?res = ?pending" and p: "pool (snd ?res) = pool s0 @ [conn]"
      by (simp_all add: r)
    from p have "Suc (length (pool s0)) \<le> length (pool (snd ?res))" by simp
    from gets_queue [OF this, of drv] p f show ?thesis by simp
  qed
  from counts rel show ?thesis by blast
qed

theorem success_on_live_connection_commits_witness:
  "fst (connection sim_driver (Some 2) work_ok (sim_pool 3 [0, 1, 2] 3 [])) = Returned ()
   \<and> pool (snd (connection sim_driver (Some 2) work_ok (sim_pool 3 [0, 1, 2] 3 []))) = [1, 2, 0]
   \<and> count_list (calls (snd (connection sim_driver (Some 2) work_ok (sim_pool 3 [0, 1, 2] 3 []))))
        (Commit 0) = 1
   \<and> count_list (calls (snd (connection sim_driver (Some 2) work_ok (sim_pool 3 [0, 1, 2] 3 []))))
        (Rollback 0) = 0
   \<and> fst (gets sim_driver 3 (snd (connection sim_driver (Some 2) work_ok
        (sim_pool 3 [0, 1, 2] 3 [])))) = [1, 2, 0]"
proof -
  let ?s = "sim_pool 3 [0, 1, 2] 3 []"
  let ?t = "snd (get sim_driver ?s)"
  let ?u = "snd (snd (apply_isolation_level sim_driver (Some 2) 0 ?t))"
  let ?w = "world ?u"
  have a: "get sim_driver ?s = (Returned 0, ?t)"
    by (simp add: get_def sim_pool_def)
  have b: "apply_isolation_level sim_driver (Some 2) 0 ?t = (Some 2, None, ?u)"
    by (simp add: pool_defs sim_defs)
  have c: "work_ok 0 (world ?u) = (None, ?w)"
    by (simp add: work_ok_def)
  have d: "connected sim_driver 0 ?w"
    by (simp add: pool_defs sim_defs)
  have e: "commit sim_driver 0 ?w = (None, ?w)"
    by (simp add: pool_defs sim_defs)
  have f: "\<forall>l. Some (2::int) = Some l \<longrightarrow> fst (set_isolation_level sim_driver 0 l ?w) = None"
    by (simp add: pool_defs sim_defs)
  have g: "pool ?t = [1, 2]" "calls ?s = []"
    by (simp_all add: get_def sim_pool_def)
  have h: "Suc (length (pool ?t)) = 3"
    using g(1) by simp
  from success_on_live_connection_commits [where body = work_ok, OF a b c d e, unfolded h] d f g
  show ?thesis
    by simp
qed

text \<open>
  C9 as stated fails in two runs where the work returns on a connected connection. In
  the first, \<open>commit\<close> fails and the connection is lost; in the second, the scope has
  changed the level and the \<open>set_isolation_level\<close> call of the \<open>finally\<close> clause raises.
  In both the connection is not put back into the idle queue.
\<close>

theorem success_on_live_connection_counterexample:
  "fst (connection sim_driver_commit_drops None work_ok (sim_pool 2 [0] 1 [])) = Raised (Error 3)
   \<and> pool (snd (connection sim_driver_commit_drops None work_ok (sim_pool 2 [0] 1 []))) = []
   \<and> calls (snd (connection sim_driver_commit_drops None work_ok (sim_pool 2 [0] 1 [])))
     = [Commit 0]
   \<and> fst (connection sim_driver (Some 2) work_ok
      (sim_pool 2 [0] 1 [None, None, Some (Error 9)])) = Raised (Error 9)
   \<and> pool (snd (connection sim_driver (Some 2) work_ok
      (sim_pool 2 [0] 1 [None, None, Some (Error 9)]))) = []
   \<and> calls (snd (connection sim_driver (Some 2) work_ok
      (sim_pool 2 [0] 1 [None, None, Some (Error 9)])))
     = [SetIsolationLevel 0 2, Commit 0, SetIsolationLevel 0 2]"
  by (simp add: pool_defs sim_defs sim_driver_commit_drops_def)

text \<open>
  C10. No operation that destroys a connection lowers \<open>size\<close>: \<open>closeall\<close> leaves it as
  it is, and so do the \<open>except\<close> clause that abandons a disconnected handle, \<open>put\<close>, and
  the whole of \<open>connection\<close> after its \<open>get\<close>. \<open>get\<close> itself never returns with a
  smaller \<open>size\<close> (its one decrement undoes its own increment). A destroyed connection
  therefore keeps its unit of \<open>maxsize\<close>.
\<close>

theorem created_count_never_decreases:
  "size' (snd (closeall drv s)) = size' s
   \<and> size' (snd (snd (except_block drv conn e s))) = size' s
   \<and> size' (put item s) = size' s
   \<and> size' (snd (connection drv requested body s)) = size' (snd (get drv s))
   \<and> size' s \<le> size' (snd (get drv s))"
  using get_size_bounds [of s drv]
  by (simp add: closeall_size except_block_size connection_size put_def)

theorem created_count_never_decreases_witness:
  "size' (sim_pool 1 [0] 1 []) = 1
   \<and> size' (snd (connection sim_driver None (work_raises_dropped (Error 5))
        (sim_pool 1 [0] 1 []))) = 1
   \<and> pool (snd (connection sim_driver None (work_raises_dropped (Error 5))
        (sim_pool 1 [0] 1 []))) = []
   \<and> fst (get sim_driver (snd (connection sim_driver None (work_raises_dropped (Error 5))
        (sim_pool 1 [0] 1 [])))) = Blocked"
proof -
  have a: "size' (snd (get sim_driver (sim_pool 1 [0] 1 []))) = 1"
    by (simp add: get_def sim_pool_def)
  have b: "pool (snd (connection sim_driver None (work_raises_dropped (Error 5))
        (sim_pool 1 [0] 1 []))) = []"
    by (simp add: pool_defs sim_defs)
  have c: "maxsize (snd (connection sim_driver None (work_raises_dropped (Error 5))
        (sim_pool 1 [0] 1 []))) = 1"
    by (simp add: pool_defs sim_defs)
  from created_count_never_decreases
    [of sim_driver "sim_pool 1 [0] 1 []" 0 "Error 5" 0 None "work_raises_dropped (Error 5)"]
  have d: "size' (snd (connection sim_driver None (work_raises_dropped (Error 5))
        (sim_pool 1 [0] 1 []))) = 1"
    using a by simp
  from b c d have "fst (get sim_driver (snd (connection sim_driver None
        (work_raises_dropped (Error 5)) (sim_pool 1 [0] 1 [])))) = Blocked"
    using get_blocks [of "snd (connection sim_driver None (work_raises_dropped (Error 5))
        (sim_pool 1 [0] 1 []))" sim_driver]
    by simp
  with b d show ?thesis
    by (simp add: sim_pool_def)
qed

end
